theory Spec2Isabelle
  imports Complex_Main
begin

section \<open>Data model of the grid-search orchestrator\<close>

text \<open>
  The development embeds the main block of \<^verbatim>\<open>topic_analysis2.py\<close> and
  \<^verbatim>\<open>exponential_backoff\<close> of \<^verbatim>\<open>SLIF/utils.py\<close>.
  Python exceptions are values of \<open>exn\<close>; a computation that may raise
  returns \<open>exn + 'a\<close>, or \<open>(exn \<times> state) + state\<close> when the state reached at the
  raise (the log written so far) is of interest.
\<close>

datatype exn = TypeError | ValueError | KeyError | IndexError | ZeroDivisionError
  | OtherError string

text \<open>
  A prior value is one of the strings \<^verbatim>\<open>'symmetric'\<close>, \<^verbatim>\<open>'asymmetric'\<close> or a
  number produced by \<^verbatim>\<open>np.arange(0.01, 1, 0.3)\<close>; numbers are represented by
  rationals.
\<close>

datatype prior = Sym string | Num rat

datatype phase = Train | Validation | Test

type_synonym combination = "int \<times> prior \<times> prior \<times> phase"

type_synonym model_key = "int \<times> prior \<times> prior"

text \<open>Opaque references: a scattered data batch and a fitted model.\<close>

datatype handle = Handle nat

datatype ldamodel = LdaModel nat

text \<open>
  The arguments of one \<^verbatim>\<open>client.submit(train_model_v2, ...)\<close> call that vary
  between calls; \<^verbatim>\<open>RANDOM_STATE\<close>, \<^verbatim>\<open>PASSES\<close>, \<^verbatim>\<open>ITERATIONS\<close>,
  \<^verbatim>\<open>UPDATE_EVERY\<close>, \<^verbatim>\<open>EVAL_EVERY\<close>, \<^verbatim>\<open>num_workers\<close> and
  \<^verbatim>\<open>PER_WORD_TOPICS\<close> are passed unchanged in every call.
\<close>

record task =
  t_n_topics :: int
  t_alpha :: prior
  t_beta :: prior
  t_data :: handle
  t_phase :: phase
  t_ldamodel :: "ldamodel option"

datatype level = INFO | WARNING | ERROR

text \<open>One constructor per \<^verbatim>\<open>logging\<close> call of the sweep, with the values it formats.\<close>

datatype message =
    EvaluatingThrottle
  | AdaptiveThrottling nat int
  | ThrottleContext phase int
  | MaxRetriesReached
  | ProceedingWithWorkload
  | TrainFutureAppended nat
  | TrainSubmitError exn
  | TrainContext int prior prior
  | ModelNotFound model_key
  | ValidationFutureAppended nat
  | ValidationSubmitError exn
  | ValidationContext int prior prior
  | TestFutureAppended nat
  | TestSubmitError exn
  | TestContext int
  | FinishedWrite

record worker =
  cpu :: rat
  memory :: int

record config =
  MAX_RETRIES :: int
  BASE_WAIT_TIME :: int
  CPU_UTILIZATION_THRESHOLD :: int
  MEMORY_UTILIZATION_THRESHOLD :: int

text \<open>
  The mutable variables of the sweep: the model index, the three lists of pending
  tasks, the loop variables \<^verbatim>\<open>n_topics\<close>, \<^verbatim>\<open>alpha_value\<close>, \<^verbatim>\<open>beta_value\<close>
  (reassigned by several loop bodies), and the observable effects: log records,
  sleep durations, progress-bar updates and rebalance requests.
\<close>

record state =
  train_models_dict :: "model_key \<rightharpoonup> ldamodel"
  train_futures :: "task list"
  validation_futures :: "task list"
  test_futures :: "task list"
  n_topics :: int
  alpha_value :: prior
  beta_value :: prior
  log :: "(level \<times> message) list"
  sleeps :: "int list"
  progress :: nat
  rebalances :: nat

text \<open>
  The state before the sweep loop: \<^verbatim>\<open>train_models_dict = {}\<close> and empty lists.
  The three loop variables are unbound until the \<^verbatim>\<open>for\<close> statement binds them;
  their initial values here are never read.
\<close>

definition init_state :: state where
  "init_state = \<lparr>train_models_dict = Map.empty, train_futures = [],
     validation_futures = [], test_futures = [], n_topics = 0, alpha_value = Sym [],
     beta_value = Sym [], log = [], sleeps = [], progress = 0, rebalances = 0\<rparr>"

definition logging :: "level \<Rightarrow> message \<Rightarrow> state \<Rightarrow> state" where
  "logging l m s = s\<lparr>log := log s @ [(l, m)]\<rparr>"

section \<open>Throttle controller\<close>

text \<open>
  \<^verbatim>\<open>def exponential_backoff(attempt, BASE_WAIT_TIME=None):
      return BASE_WAIT_TIME * (2 ** attempt)\<close>
  The attempt is the retry counter, a natural number. The default \<^verbatim>\<open>None\<close> of the
  second parameter is \<open>None\<close> here; \<^verbatim>\<open>None * int\<close> raises \<^verbatim>\<open>TypeError\<close>.
\<close>

definition exponential_backoff :: "nat \<Rightarrow> int option \<Rightarrow> exn + int" where
  "exponential_backoff attempt base =
     (case base of
        None \<Rightarrow> Inl TypeError
      | Some b \<Rightarrow> Inr (b * 2 ^ attempt))"

text \<open>\<^verbatim>\<open>time.sleep\<close> raises \<^verbatim>\<open>ValueError\<close> on a negative duration.\<close>

definition sleep :: "int \<Rightarrow> state \<Rightarrow> exn + state" where
  "sleep d s = (if d < 0 then Inl ValueError else Inr (s\<lparr>sleeps := sleeps s @ [d]\<rparr>))"

text \<open>
  \<^verbatim>\<open>all(worker['metrics']['cpu'] < CPU_UTILIZATION_THRESHOLD for worker in ...)\<close>
  and the same for memory, over the workers one poll reports.
\<close>

definition all_workers_below_cpu_threshold :: "config \<Rightarrow> worker list \<Rightarrow> bool" where
  "all_workers_below_cpu_threshold cfg ws =
     list_all (\<lambda>w. cpu w < of_int (CPU_UTILIZATION_THRESHOLD cfg)) ws"

definition all_workers_below_memory_threshold :: "config \<Rightarrow> worker list \<Rightarrow> bool" where
  "all_workers_below_memory_threshold cfg ws =
     list_all (\<lambda>w. memory w < MEMORY_UTILIZATION_THRESHOLD cfg) ws"

definition below_thresholds :: "config \<Rightarrow> worker list \<Rightarrow> bool" where
  "below_thresholds cfg ws \<longleftrightarrow>
     all_workers_below_cpu_threshold cfg ws \<and> all_workers_below_memory_threshold cfg ws"

text \<open>
  The \<^verbatim>\<open>while throttle_attempt < MAX_RETRIES\<close> loop. \<open>polls k\<close> is what
  \<^verbatim>\<open>client.scheduler_info()\<close> reports at the poll made with
  \<^verbatim>\<open>throttle_attempt = k\<close>; \<open>ph\<close> is \<^verbatim>\<open>train_eval_type\<close>. The result is the
  final \<^verbatim>\<open>throttle_attempt\<close> and the state.
  The second warning also formats the constant lists \<^verbatim>\<open>alpha_values\<close> and
  \<^verbatim>\<open>beta_values\<close>, left out of \<open>ThrottleContext\<close>.
\<close>

function throttle_loop ::
  "config \<Rightarrow> (nat \<Rightarrow> worker list) \<Rightarrow> phase \<Rightarrow> nat \<Rightarrow> state \<Rightarrow> (exn \<times> state) + (nat \<times> state)"
where
  "throttle_loop cfg polls ph throttle_attempt s =
     (if int throttle_attempt < MAX_RETRIES cfg then
        (if \<not> below_thresholds cfg (polls throttle_attempt) then
           (let s1 = logging WARNING (AdaptiveThrottling throttle_attempt (MAX_RETRIES cfg - 1)) s;
                s2 = logging WARNING (ThrottleContext ph (n_topics s1)) s1
            in case exponential_backoff throttle_attempt (Some (BASE_WAIT_TIME cfg)) of
                 Inl e \<Rightarrow> Inl (e, s2)
               | Inr d \<Rightarrow>
                   (case sleep d s2 of
                      Inl e \<Rightarrow> Inl (e, s2)
                    | Inr s3 \<Rightarrow> throttle_loop cfg polls ph (Suc throttle_attempt) s3))
         else Inr (throttle_attempt, s))
      else Inr (throttle_attempt, s))"
  by pat_completeness auto
termination
  by (relation "measure (\<lambda>(cfg, polls, ph, a, s). nat (MAX_RETRIES cfg - int a))") auto

declare throttle_loop.simps [simp del]

text \<open>
  The admission check of one sweep iteration: the loop from attempt 0, then the
  report (\<^verbatim>\<open>if throttle_attempt == MAX_RETRIES\<close>). Either way control falls
  through to the training phase.
\<close>

definition admit :: "config \<Rightarrow> (nat \<Rightarrow> worker list) \<Rightarrow> phase \<Rightarrow> state \<Rightarrow> (exn \<times> state) + state" where
  "admit cfg polls ph s =
     (case throttle_loop cfg polls ph 0 (logging INFO EvaluatingThrottle s) of
        Inl r \<Rightarrow> Inl r
      | Inr (throttle_attempt, s1) \<Rightarrow>
          (if int throttle_attempt = MAX_RETRIES cfg
           then Inr (logging WARNING MaxRetriesReached s1)
           else Inr (logging INFO ProceedingWithWorkload s1)))"

section \<open>Combination sampler\<close>

text \<open>
  \<^verbatim>\<open>range(start, stop, step)\<close>: \<^verbatim>\<open>ValueError\<close> for a zero step, otherwise the
  arithmetic progression from \<open>start\<close> that stays before \<open>stop\<close>.
\<close>

definition range_len :: "int \<Rightarrow> int \<Rightarrow> int \<Rightarrow> nat" where
  "range_len start stop step =
     (if 0 < step then (if start < stop then nat ((stop - start - 1) div step + 1) else 0)
      else (if stop < start then nat ((start - stop - 1) div (- step) + 1) else 0))"

definition py_range :: "int \<Rightarrow> int \<Rightarrow> int \<Rightarrow> exn + int list" where
  "py_range start stop step =
     (if step = 0 then Inl ValueError
      else Inr (map (\<lambda>i. start + int i * step) [0..<range_len start stop step]))"

text \<open>\<^verbatim>\<open>numeric_symmetric = 1.0 / num_topics\<close>\<close>

definition numeric_symmetric :: "nat \<Rightarrow> exn + rat" where
  "numeric_symmetric num_topics =
     (if num_topics = 0 then Inl ZeroDivisionError else Inr (1 / of_nat num_topics))"

text \<open>
  \<^verbatim>\<open>np.arange(0.01, 1, 0.3).tolist()\<close> has the four entries 0.01, 0.31, 0.61 and
  0.91 (up to the rounding of binary floating point).
\<close>

definition arange_values :: "prior list" where
  "arange_values = [Num (1 / 100), Num (31 / 100), Num (61 / 100), Num (91 / 100)]"

definition alpha_values :: "prior list" where
  "alpha_values = [Sym ''symmetric'', Sym ''asymmetric''] @ arange_values"

definition beta_values :: "prior list" where
  "beta_values = [Sym ''symmetric''] @ arange_values"

definition phases :: "phase list" where
  "phases = [Train, Validation, Test]"

text \<open>
  \<^verbatim>\<open>list(itertools.product(range(...), alpha_values, beta_values, phases))\<close>,
  for the list of topic counts the range gives.
\<close>

definition combinations :: "int list \<Rightarrow> combination list" where
  "combinations topics =
     [(n, a, b, p). n \<leftarrow> topics, a \<leftarrow> alpha_values, b \<leftarrow> beta_values, p \<leftarrow> phases]"

text \<open>\<^verbatim>\<open>int(x)\<close> on a float truncates toward zero.\<close>

definition py_int :: "rat \<Rightarrow> int" where
  "py_int x = (if 0 \<le> x then \<lfloor>x\<rfloor> else \<lceil>x\<rceil>)"

text \<open>\<^verbatim>\<open>sample_fraction = 0.375\<close>, a dyadic number, exact as a float.\<close>

definition sample_fraction :: rat where
  "sample_fraction = 3 / 8"

text \<open>
  \<^verbatim>\<open>sample_size = min(max(1, int(len(combinations) * sample_fraction)),
                     len(combinations))\<close>
\<close>

definition sample_size :: "rat \<Rightarrow> 'a list \<Rightarrow> int" where
  "sample_size fraction combs =
     min (max 1 (py_int (of_nat (length combs) * fraction))) (int (length combs))"

text \<open>
  \<^verbatim>\<open>random.sample(population, k)\<close> raises \<^verbatim>\<open>ValueError\<close> unless
  \<open>0 \<le> k \<le> len(population)\<close> and otherwise returns the elements at \<open>k\<close> distinct
  positions chosen by the generator. The chosen positions are the parameter
  \<open>draw\<close>; \<open>valid_draw\<close> says that they are such a choice.
\<close>

definition valid_draw :: "nat list \<Rightarrow> nat \<Rightarrow> int \<Rightarrow> bool" where
  "valid_draw draw n k \<longleftrightarrow>
     distinct draw \<and> int (length draw) = k \<and> list_all (\<lambda>i. i < n) draw"

definition random_sample :: "nat list \<Rightarrow> 'a list \<Rightarrow> int \<Rightarrow> exn + 'a list" where
  "random_sample draw population k =
     (if k < 0 \<or> int (length population) < k then Inl ValueError
      else Inr (map (\<lambda>i. population ! i) draw))"

text \<open>
  The sampler of the main block, from the topic range to the pair of
  \<^verbatim>\<open>random_combinations\<close> and \<^verbatim>\<open>undrawn_combinations\<close>. The block draws twice and
  keeps the second sample and its complement; \<open>draw\<close> is that second draw.
  \<^verbatim>\<open>undrawn_combinations = list(set(combinations) - set(random_combinations))\<close>
  is a list in no specified order, here the set itself.
\<close>

definition sampler ::
  "int \<Rightarrow> int \<Rightarrow> int \<Rightarrow> nat list \<Rightarrow> exn + (combination list \<times> combination set)" where
  "sampler START_TOPICS END_TOPICS STEP_SIZE draw =
     (case py_range START_TOPICS (END_TOPICS + 1) STEP_SIZE of
        Inl e \<Rightarrow> Inl e
      | Inr topics \<Rightarrow>
          (case numeric_symmetric (length topics) of
             Inl e \<Rightarrow> Inl e
           | Inr _ \<Rightarrow>
               (case random_sample draw (combinations topics)
                       (sample_size sample_fraction (combinations topics)) of
                  Inl e \<Rightarrow> Inl e
                | Inr random_combinations \<Rightarrow>
                    Inr (random_combinations,
                         set (combinations topics) - set random_combinations))))"

text \<open>
  The clamp of the specification, \<open>clamp(x, lo, hi)\<close>: \<open>x\<close> bounded below by \<open>lo\<close>
  and above by \<open>hi\<close>.
\<close>

definition clamp :: "int \<Rightarrow> int \<Rightarrow> int \<Rightarrow> int" where
  "clamp x lo hi = (if x < lo then lo else if hi < x then hi else x)"

section \<open>Phase scheduler\<close>

text \<open>
  What \<^verbatim>\<open>train_model_v2\<close> returns, as far as the sweep reads it. The entries
  \<^verbatim>\<open>alpha_str\<close> and \<^verbatim>\<open>beta_str\<close> are either a value or a list of values
  (\<^verbatim>\<open>isinstance(..., list)\<close>); the fields stand for the entries \<^verbatim>\<open>'topics'\<close>,
  \<^verbatim>\<open>'alpha_str'\<close>, \<^verbatim>\<open>'beta_str'\<close> and \<^verbatim>\<open>'lda_model'\<close>.
\<close>

datatype 'a field = Scalar 'a | ListOf "'a list"

record train_result =
  res_topics :: int
  res_alpha_str :: "prior field"
  res_beta_str :: "prior field"
  res_lda_model :: ldamodel

text \<open>
  What \<^verbatim>\<open>scattered_data.result()\<close> of a test handle holds under the keys
  \<^verbatim>\<open>'n_topics'\<close>, \<^verbatim>\<open>'alpha_value'\<close>, \<^verbatim>\<open>'beta_value'\<close>; \<open>None\<close> is an absent key.
\<close>

record test_result =
  tr_n_topics :: "int option"
  tr_alpha_value :: "prior option"
  tr_beta_value :: "prior option"

text \<open>
  The execution substrate and the collaborators, as far as the sweep observes them:
  \<^item> \<open>scheduler_info i k\<close>: the workers reported by poll \<open>k\<close> of iteration \<open>i\<close>;
  \<^item> \<open>submit i t\<close>: \<open>None\<close> when \<^verbatim>\<open>client.submit\<close> returns a future for task \<open>t\<close>
    in iteration \<open>i\<close>, \<open>Some e\<close> when it raises \<open>e\<close>;
  \<^item> \<open>future_result t\<close>: \<^verbatim>\<open>.result()\<close> of the future of task \<open>t\<close>;
  \<^item> \<open>handle_result h\<close>: \<^verbatim>\<open>.result()\<close> of a scattered test handle;
  \<^item> \<open>process_visualizations i rs\<close>: \<open>None\<close> when the call returns, \<open>Some e\<close> when
    it raises \<open>e\<close>.
\<close>

record substrate =
  scheduler_info :: "nat \<Rightarrow> nat \<Rightarrow> worker list"
  submit :: "nat \<Rightarrow> task \<Rightarrow> exn option"
  future_result :: "task \<Rightarrow> exn + train_result"
  handle_result :: "handle \<Rightarrow> exn + test_result"
  process_visualizations :: "nat \<Rightarrow> train_result list \<Rightarrow> exn option"

text \<open>What is fixed before the sweep loop starts.\<close>

record inputs =
  settings :: config
  scattered_train_data_futures :: "handle list"
  scattered_validation_data_futures :: "handle list"
  scattered_test_data_futures :: "handle list"
  random_combinations :: "combination list"

subsection \<open>Training\<close>

text \<open>
  The training submission loop. A failing submission is logged with the
  parameters of the current combination and raised again.
\<close>

fun train_submit :: "substrate \<Rightarrow> nat \<Rightarrow> handle list \<Rightarrow> state \<Rightarrow> (exn \<times> state) + state" where
  "train_submit sub i [] s = Inr s"
| "train_submit sub i (scattered_data # rest) s =
     (case submit sub i \<lparr>t_n_topics = n_topics s, t_alpha = alpha_value s,
             t_beta = beta_value s, t_data = scattered_data, t_phase = Train,
             t_ldamodel = None\<rparr> of
        None \<Rightarrow>
          (let s1 = s\<lparr>train_futures := train_futures s @
                      [\<lparr>t_n_topics = n_topics s, t_alpha = alpha_value s,
                        t_beta = beta_value s, t_data = scattered_data, t_phase = Train,
                        t_ldamodel = None\<rparr>]\<rparr>
           in train_submit sub i rest
                (logging INFO (TrainFutureAppended (length (train_futures s1))) s1))
      | Some e \<Rightarrow>
          Inl (e, logging ERROR (TrainContext (n_topics s) (alpha_value s) (beta_value s))
                    (logging ERROR (TrainSubmitError e) s)))"

text \<open>
  \<^verbatim>\<open>done, _ = wait(futures, timeout=None); [d.result() for d in done]\<close>: the results
  of a whole wave, or the exception of a failed task. The wave is taken in
  submission order.
\<close>

fun wait_results :: "substrate \<Rightarrow> task list \<Rightarrow> exn + train_result list" where
  "wait_results sub [] = Inr []"
| "wait_results sub (t # ts) =
     (case future_result sub t of
        Inl e \<Rightarrow> Inl e
      | Inr r \<Rightarrow> (case wait_results sub ts of Inl e \<Rightarrow> Inl e | Inr rs \<Rightarrow> Inr (r # rs)))"

text \<open>\<^verbatim>\<open>x[0] if isinstance(x, list) else x\<close>\<close>

definition first_or_self :: "'a field \<Rightarrow> exn + 'a" where
  "first_or_self x =
     (case x of Scalar v \<Rightarrow> Inr v | ListOf [] \<Rightarrow> Inl IndexError | ListOf (v # _) \<Rightarrow> Inr v)"

text \<open>
  The loop that files each training result in \<^verbatim>\<open>train_models_dict\<close> under
  \<^verbatim>\<open>(n_topics, alpha_value, beta_value)\<close>; it reassigns the three loop variables.
  A key of this type is hashable, so the \<^verbatim>\<open>except TypeError\<close> around the
  assignment is never entered.
\<close>

fun record_models :: "train_result list \<Rightarrow> state \<Rightarrow> (exn \<times> state) + state" where
  "record_models [] s = Inr s"
| "record_models (train_result # rest) s =
     (let s1 = s\<lparr>n_topics := res_topics train_result\<rparr>
      in case first_or_self (res_alpha_str train_result) of
           Inl e \<Rightarrow> Inl (e, s1)
         | Inr a \<Rightarrow>
             (let s2 = s1\<lparr>alpha_value := a\<rparr>
              in case first_or_self (res_beta_str train_result) of
                   Inl e \<Rightarrow> Inl (e, s2)
                 | Inr b \<Rightarrow>
                     (let s3 = s2\<lparr>beta_value := b\<rparr>
                      in record_models rest
                           (s3\<lparr>train_models_dict := (train_models_dict s3)
                                 ((n_topics s3, alpha_value s3, beta_value s3) \<mapsto>
                                    res_lda_model train_result)\<rparr>))))"

definition train_phase ::
  "substrate \<Rightarrow> inputs \<Rightarrow> nat \<Rightarrow> state \<Rightarrow> (exn \<times> state) + (train_result list \<times> state)" where
  "train_phase sub inp i s =
     (case train_submit sub i (scattered_train_data_futures inp) s of
        Inl r \<Rightarrow> Inl r
      | Inr s1 \<Rightarrow>
          (case wait_results sub (train_futures s1) of
             Inl e \<Rightarrow> Inl (e, s1)
           | Inr completed_train_futures \<Rightarrow>
               (case record_models completed_train_futures s1 of
                  Inl r \<Rightarrow> Inl r
                | Inr s2 \<Rightarrow> Inr (completed_train_futures, s2))))"

subsection \<open>Validation\<close>

text \<open>
  \<^verbatim>\<open>validation_batches = [{'data': tokenized_list, 'n_topics': n, 'alpha': alpha_value,
     'beta': beta_value} for tokenized_list, (n, alpha_value, beta_value, _)
     in zip(scattered_validation_data_futures, random_combinations)]\<close>
\<close>

definition validation_batches ::
  "handle list \<Rightarrow> combination list \<Rightarrow> (handle \<times> int \<times> prior \<times> prior) list" where
  "validation_batches pool combs =
     map (\<lambda>(tokenized_list, (n, a, b, _)). (tokenized_list, n, a, b)) (zip pool combs)"

text \<open>
  The body of the validation loop for one batch: the \<^verbatim>\<open>try\<close> block with its
  \<^verbatim>\<open>continue\<close> on a missing model and its \<^verbatim>\<open>except Exception\<close> clause, which
  does not raise again.
\<close>

definition validation_step ::
  "substrate \<Rightarrow> nat \<Rightarrow> (handle \<times> int \<times> prior \<times> prior) \<Rightarrow> state \<Rightarrow> state" where
  "validation_step sub i batch s =
     (case batch of (validation_data, n, a, b) \<Rightarrow>
        (let s1 = s\<lparr>n_topics := n, alpha_value := a, beta_value := b\<rparr>
         in case train_models_dict s1 (n, a, b) of
              None \<Rightarrow> logging ERROR (ModelNotFound (n, a, b)) s1
            | Some ldamodel \<Rightarrow>
                (case submit sub i \<lparr>t_n_topics = n, t_alpha = a, t_beta = b,
                        t_data = validation_data, t_phase = Validation,
                        t_ldamodel = Some ldamodel\<rparr> of
                   None \<Rightarrow>
                     (let s2 = s1\<lparr>validation_futures := validation_futures s1 @
                                 [\<lparr>t_n_topics = n, t_alpha = a, t_beta = b,
                                   t_data = validation_data, t_phase = Validation,
                                   t_ldamodel = Some ldamodel\<rparr>]\<rparr>
                      in logging INFO
                           (ValidationFutureAppended (length (validation_futures s2))) s2)
                 | Some e \<Rightarrow>
                     logging ERROR
                       (ValidationContext (n_topics s1) (alpha_value s1) (beta_value s1))
                       (logging ERROR (ValidationSubmitError e) s1))))"

fun validation_submit ::
  "substrate \<Rightarrow> nat \<Rightarrow> (handle \<times> int \<times> prior \<times> prior) list \<Rightarrow> state \<Rightarrow> state" where
  "validation_submit sub i [] s = s"
| "validation_submit sub i (batch # rest) s =
     validation_submit sub i rest (validation_step sub i batch s)"

definition validation_phase ::
  "substrate \<Rightarrow> inputs \<Rightarrow> nat \<Rightarrow> state \<Rightarrow> (exn \<times> state) + state" where
  "validation_phase sub inp i s =
     (let s1 = validation_submit sub i
                 (validation_batches (scattered_validation_data_futures inp)
                    (random_combinations inp)) s
      in case wait_results sub (validation_futures s1) of
           Inl e \<Rightarrow> Inl (e, s1)
         | Inr completed_validation_futures \<Rightarrow> Inr s1)"

subsection \<open>Test\<close>

text \<open>
  The body of the test loop for one handle. The key comes from the handle's own
  result; each of the three reads assigns its loop variable or raises
  \<^verbatim>\<open>KeyError\<close>, and every exception ends in the \<^verbatim>\<open>except Exception\<close> clause.
\<close>

definition test_failed :: "exn \<Rightarrow> state \<Rightarrow> state" where
  "test_failed e s = logging ERROR (TestContext (n_topics s)) (logging ERROR (TestSubmitError e) s)"

definition test_step :: "substrate \<Rightarrow> nat \<Rightarrow> handle \<Rightarrow> state \<Rightarrow> state" where
  "test_step sub i scattered_data s =
     (case handle_result sub scattered_data of
        Inl e \<Rightarrow> test_failed e s
      | Inr test_result \<Rightarrow>
          (case tr_n_topics test_result of
             None \<Rightarrow> test_failed KeyError s
           | Some n \<Rightarrow>
               (let s1 = s\<lparr>n_topics := n\<rparr>
                in case tr_alpha_value test_result of
                     None \<Rightarrow> test_failed KeyError s1
                   | Some a \<Rightarrow>
                       (let s2 = s1\<lparr>alpha_value := a\<rparr>
                        in case tr_beta_value test_result of
                             None \<Rightarrow> test_failed KeyError s2
                           | Some b \<Rightarrow>
                               (let s3 = s2\<lparr>beta_value := b\<rparr>
                                in case train_models_dict s3 (n, a, b) of
                                     None \<Rightarrow> logging ERROR (ModelNotFound (n, a, b)) s3
                                   | Some ldamodel \<Rightarrow>
                                       (case submit sub i \<lparr>t_n_topics = n, t_alpha = a,
                                               t_beta = b, t_data = scattered_data,
                                               t_phase = Test,
                                               t_ldamodel = Some ldamodel\<rparr> of
                                          None \<Rightarrow>
                                            (let s4 = s3\<lparr>test_futures := test_futures s3 @
                                                        [\<lparr>t_n_topics = n, t_alpha = a,
                                                          t_beta = b, t_data = scattered_data,
                                                          t_phase = Test,
                                                          t_ldamodel = Some ldamodel\<rparr>]\<rparr>
                                             in logging INFO
                                                  (TestFutureAppended (length (test_futures s4)))
                                                  s4)
                                        | Some e \<Rightarrow> test_failed e s3))))))"

fun test_submit :: "substrate \<Rightarrow> nat \<Rightarrow> handle list \<Rightarrow> state \<Rightarrow> state" where
  "test_submit sub i [] s = s"
| "test_submit sub i (scattered_data # rest) s =
     test_submit sub i rest (test_step sub i scattered_data s)"

definition test_phase :: "substrate \<Rightarrow> inputs \<Rightarrow> nat \<Rightarrow> state \<Rightarrow> (exn \<times> state) + state" where
  "test_phase sub inp i s =
     (let s1 = test_submit sub i (scattered_test_data_futures inp) s
      in case wait_results sub (test_futures s1) of
           Inl e \<Rightarrow> Inl (e, s1)
         | Inr completed_test_futures \<Rightarrow> Inr s1)"

subsection \<open>One sweep iteration and the sweep\<close>

text \<open>
  From the head of the \<^verbatim>\<open>for\<close> loop, which binds the loop variables to the
  current combination, through the throttle and the three phases. The result
  carries \<^verbatim>\<open>completed_train_futures\<close> for the visualization.
\<close>

definition phase_group ::
  "substrate \<Rightarrow> inputs \<Rightarrow> nat \<Rightarrow> combination \<Rightarrow> state \<Rightarrow>
     (exn \<times> state) + (train_result list \<times> state)" where
  "phase_group sub inp i comb s =
     (case comb of (n, a, b, train_eval_type) \<Rightarrow>
        (case admit (settings inp) (scheduler_info sub i) train_eval_type
                (s\<lparr>n_topics := n, alpha_value := a, beta_value := b\<rparr>) of
           Inl r \<Rightarrow> Inl r
         | Inr s1 \<Rightarrow>
             (case train_phase sub inp i s1 of
                Inl r \<Rightarrow> Inl r
              | Inr (completed_train_futures, s2) \<Rightarrow>
                  (case validation_phase sub inp i s2 of
                     Inl r \<Rightarrow> Inl r
                   | Inr s3 \<Rightarrow>
                       (case test_phase sub inp i s3 of
                          Inl r \<Rightarrow> Inl r
                        | Inr s4 \<Rightarrow> Inr (completed_train_futures, s4))))))"

text \<open>
  The end of the loop body: the progress bar advances, the three lists of pending
  tasks are cleared (the three lists of completed results are local to the
  iteration) and a rebalance is requested. \<^verbatim>\<open>train_models_dict\<close> is not touched.
\<close>

definition recycle :: "state \<Rightarrow> state" where
  "recycle s = s\<lparr>progress := Suc (progress s), test_futures := [],
     validation_futures := [], train_futures := [], rebalances := Suc (rebalances s)\<rparr>"

datatype signal = Continue | Break

text \<open>
  The visualization call: \<^verbatim>\<open>except KeyError: continue\<close> skips the rest of the body,
  \<^verbatim>\<open>except Exception: break\<close> leaves the loop.
\<close>

definition iteration ::
  "substrate \<Rightarrow> inputs \<Rightarrow> nat \<Rightarrow> combination \<Rightarrow> state \<Rightarrow> (exn \<times> state) + (signal \<times> state)" where
  "iteration sub inp i comb s =
     (case phase_group sub inp i comb s of
        Inl r \<Rightarrow> Inl r
      | Inr (completed_train_futures, s1) \<Rightarrow>
          (case process_visualizations sub i completed_train_futures of
             None \<Rightarrow> Inr (Continue, recycle (logging INFO FinishedWrite s1))
           | Some e \<Rightarrow> if e = KeyError then Inr (Continue, s1) else Inr (Break, s1)))"

text \<open>
  \<^verbatim>\<open>for i, (...) in enumerate(random_combinations)\<close>, from index \<open>i\<close> with the
  combinations \<open>rest\<close> still to come.
\<close>

fun sweep_loop ::
  "substrate \<Rightarrow> inputs \<Rightarrow> nat \<Rightarrow> combination list \<Rightarrow> state \<Rightarrow> (exn \<times> state) + state" where
  "sweep_loop sub inp i [] s = Inr s"
| "sweep_loop sub inp i (comb # rest) s =
     (case iteration sub inp i comb s of
        Inl r \<Rightarrow> Inl r
      | Inr (Break, s1) \<Rightarrow> Inr s1
      | Inr (Continue, s1) \<Rightarrow> sweep_loop sub inp (Suc i) rest s1)"

definition sweep :: "substrate \<Rightarrow> inputs \<Rightarrow> (exn \<times> state) + state" where
  "sweep sub inp = sweep_loop sub inp 0 (random_combinations inp) init_state"

subsection \<open>A small run\<close>

text \<open>
  A substrate with idle workers in which every submission succeeds, training
  returns the submitted parameters with a model named after the topic count, and
  the visualization returns; one training and one validation batch, no test
  batch, and two sampled combinations.
\<close>

definition echo_substrate :: substrate where
  "echo_substrate = \<lparr>scheduler_info = (\<lambda>i k. [\<lparr>cpu = 5, memory = 10\<rparr>]),
     submit = (\<lambda>i t. None),
     future_result = (\<lambda>t. Inr \<lparr>res_topics = t_n_topics t, res_alpha_str = Scalar (t_alpha t),
        res_beta_str = Scalar (t_beta t), res_lda_model = LdaModel (nat (t_n_topics t))\<rparr>),
     handle_result = (\<lambda>h. Inl KeyError),
     process_visualizations = (\<lambda>i rs. None)\<rparr>"

definition two_combinations :: inputs where
  "two_combinations = \<lparr>settings = \<lparr>MAX_RETRIES = 5, BASE_WAIT_TIME = 30,
        CPU_UTILIZATION_THRESHOLD = 100, MEMORY_UTILIZATION_THRESHOLD = 4096\<rparr>,
     scattered_train_data_futures = [Handle 0],
     scattered_validation_data_futures = [Handle 1],
     scattered_test_data_futures = [],
     random_combinations =
       [(5, Sym ''symmetric'', Sym ''symmetric'', Train),
        (10, Sym ''symmetric'', Sym ''symmetric'', Validation)]\<rparr>"

text \<open>
  The state this run is in after its first iteration, and the state it is in at
  the end of the test phase of its second iteration.
\<close>

definition after_first_iteration :: state where
  "after_first_iteration = \<lparr>
     train_models_dict = [(5, Sym ''symmetric'', Sym ''symmetric'') \<mapsto> LdaModel 5],
     train_futures = [], validation_futures = [], test_futures = [],
     n_topics = 5, alpha_value = Sym ''symmetric'', beta_value = Sym ''symmetric'',
     log = [(INFO, EvaluatingThrottle), (INFO, ProceedingWithWorkload),
            (INFO, TrainFutureAppended 1), (INFO, ValidationFutureAppended 1),
            (INFO, FinishedWrite)],
     sleeps = [], progress = 1, rebalances = 1\<rparr>"

definition in_second_iteration :: state where
  "in_second_iteration = \<lparr>
     train_models_dict = [(5, Sym ''symmetric'', Sym ''symmetric'') \<mapsto> LdaModel 5,
                          (10, Sym ''symmetric'', Sym ''symmetric'') \<mapsto> LdaModel 10],
     train_futures = [\<lparr>t_n_topics = 10, t_alpha = Sym ''symmetric'',
        t_beta = Sym ''symmetric'', t_data = Handle 0, t_phase = Train,
        t_ldamodel = None\<rparr>],
     validation_futures = [\<lparr>t_n_topics = 5, t_alpha = Sym ''symmetric'',
        t_beta = Sym ''symmetric'', t_data = Handle 1, t_phase = Validation,
        t_ldamodel = Some (LdaModel 5)\<rparr>],
     test_futures = [],
     n_topics = 5, alpha_value = Sym ''symmetric'', beta_value = Sym ''symmetric'',
     log = [(INFO, EvaluatingThrottle), (INFO, ProceedingWithWorkload),
            (INFO, TrainFutureAppended 1), (INFO, ValidationFutureAppended 1),
            (INFO, FinishedWrite), (INFO, EvaluatingThrottle),
            (INFO, ProceedingWithWorkload), (INFO, TrainFutureAppended 1),
            (INFO, ValidationFutureAppended 1)],
     sleeps = [], progress = 1, rebalances = 1\<rparr>"

text \<open>
  The same substrate, except that every submission raises and every test handle
  carries the key of the first combination.
\<close>

definition refusing_substrate :: substrate where
  "refusing_substrate = echo_substrate\<lparr>
     submit := (\<lambda>i t. Some (OtherError ''refused'')),
     handle_result := (\<lambda>h. Inr \<lparr>tr_n_topics = Some 5,
        tr_alpha_value = Some (Sym ''symmetric''),
        tr_beta_value = Some (Sym ''symmetric'')\<rparr>)\<rparr>"

section \<open>Properties of the throttle controller\<close>

text \<open>
  Claim C10: without a \<^verbatim>\<open>BASE_WAIT_TIME\<close> argument the call raises
  \<^verbatim>\<open>TypeError\<close> whatever the attempt is, and a duration is returned exactly when
  a numeric base is passed, in which case it is the base times two to the attempt.
\<close>

theorem exponential_backoff_needs_base:
  "exponential_backoff attempt None = Inl TypeError \<and>
   ((\<exists>d. exponential_backoff attempt base = Inr d) \<longleftrightarrow> (\<exists>b. base = Some b)) \<and>
   exponential_backoff attempt (Some b) = Inr (b * 2 ^ attempt)"
  by (cases base) (simp_all add: exponential_backoff_def)



lemma throttle_loop_run:
  assumes base: "0 \<le> BASE_WAIT_TIME cfg"
    and above: "\<forall>k. a \<le> k \<and> k < j \<longrightarrow> \<not> below_thresholds cfg (polls k)"
    and stop: "int j < MAX_RETRIES cfg \<longrightarrow> below_thresholds cfg (polls j)"
    and le: "a \<le> j" and bound: "int j \<le> MAX_RETRIES cfg"
  shows "\<exists>s'. throttle_loop cfg polls ph a s = Inr (j, s') \<and>
           sleeps s' = sleeps s @ map (\<lambda>k. BASE_WAIT_TIME cfg * 2 ^ k) [a..<j]"
  using above le
proof (induction "j - a" arbitrary: a s)
  case 0
  then have "a = j" by simp
  then show ?case using stop bound
    by (subst throttle_loop.simps) (cases "int j < MAX_RETRIES cfg", simp_all)
next
  case (Suc n)
  then have lt: "a < j" and n: "n = j - Suc a" by simp_all
  have ab: "\<not> below_thresholds cfg (polls a)" using Suc.prems lt by simp
  have lt': "int a < MAX_RETRIES cfg" using lt bound by simp
  define s2 where "s2 = logging WARNING (ThrottleContext ph (n_topics s))
     (logging WARNING (AdaptiveThrottling a (MAX_RETRIES cfg - 1)) s)"
  define s3 where "s3 = s2\<lparr>sleeps := sleeps s2 @ [BASE_WAIT_TIME cfg * 2 ^ a]\<rparr>"
  have nonneg: "\<not> BASE_WAIT_TIME cfg * 2 ^ a < 0" using base by (simp add: not_less)
  have step: "throttle_loop cfg polls ph a s = throttle_loop cfg polls ph (Suc a) s3"
    using ab lt' nonneg
    by (subst throttle_loop.simps)
       (simp add: exponential_backoff_def sleep_def s2_def s3_def logging_def Let_def)
  have "\<exists>s'. throttle_loop cfg polls ph (Suc a) s3 = Inr (j, s') \<and>
           sleeps s' = sleeps s3 @ map (\<lambda>k. BASE_WAIT_TIME cfg * 2 ^ k) [Suc a..<j]"
    using Suc.hyps(1)[OF n, of s3] Suc.prems lt by simp
  moreover have "sleeps s3 = sleeps s @ [BASE_WAIT_TIME cfg * 2 ^ a]"
    by (simp add: s3_def s2_def logging_def)
  ultimately show ?case using step lt by (auto simp: upt_conv_Cons)
qed

lemma admit_stops_at:
  assumes "0 \<le> BASE_WAIT_TIME cfg"
    and "\<forall>k<j. \<not> below_thresholds cfg (polls k)"
    and "int j < MAX_RETRIES cfg \<longrightarrow> below_thresholds cfg (polls j)"
    and "int j \<le> MAX_RETRIES cfg"
  shows "\<exists>s'. admit cfg polls ph s = Inr s' \<and>
           sleeps s' = sleeps s @ map (\<lambda>k. BASE_WAIT_TIME cfg * 2 ^ k) [0..<j] \<and>
           last (log s') = (if int j = MAX_RETRIES cfg then (WARNING, MaxRetriesReached)
                            else (INFO, ProceedingWithWorkload))"
proof -
  obtain s1 where run: "throttle_loop cfg polls ph 0 (logging INFO EvaluatingThrottle s) = Inr (j, s1)"
    and sl: "sleeps s1 = sleeps (logging INFO EvaluatingThrottle s) @
               map (\<lambda>k. BASE_WAIT_TIME cfg * 2 ^ k) [0..<j]"
    using throttle_loop_run[of cfg 0 j polls ph "logging INFO EvaluatingThrottle s"] assms
    by auto
  show ?thesis using run sl by (simp add: admit_def logging_def)
qed

text \<open>
  Claim C2: for a retry count \<open>MAX_RETRIES \<ge> 0\<close> and a base wait \<open>BASE_WAIT_TIME \<ge> 0\<close>:
  when every poll finds some worker at or above a threshold, the admission check
  sleeps exactly \<open>MAX_RETRIES\<close> times, the \<open>k\<close>-th sleep lasting
  \<open>BASE_WAIT_TIME * 2 ^ k\<close>, logs that the retries are exhausted and returns normally,
  so that the training submission follows; when poll \<open>j\<close> is the first to find
  all workers below both thresholds, the sleeps are those of the attempts before \<open>j\<close>
  only and the check reports that it proceeds.
\<close>

theorem throttle_backoff_schedule:
  assumes "0 \<le> MAX_RETRIES cfg" and "0 \<le> BASE_WAIT_TIME cfg"
  shows "((\<forall>k. int k < MAX_RETRIES cfg \<longrightarrow> \<not> below_thresholds cfg (polls k)) \<longrightarrow>
          (\<exists>s'. admit cfg polls ph s = Inr s' \<and>
             sleeps s' = sleeps s @
               map (\<lambda>k. BASE_WAIT_TIME cfg * 2 ^ k) [0..<nat (MAX_RETRIES cfg)] \<and>
             length (sleeps s') = length (sleeps s) + nat (MAX_RETRIES cfg) \<and>
             last (log s') = (WARNING, MaxRetriesReached))) \<and>
         (int j < MAX_RETRIES cfg \<and> (\<forall>k<j. \<not> below_thresholds cfg (polls k)) \<and>
            below_thresholds cfg (polls j) \<longrightarrow>
          (\<exists>s'. admit cfg polls ph s = Inr s' \<and>
             sleeps s' = sleeps s @ map (\<lambda>k. BASE_WAIT_TIME cfg * 2 ^ k) [0..<j] \<and>
             last (log s') = (INFO, ProceedingWithWorkload)))"
proof (intro conjI impI)
  assume all: "\<forall>k. int k < MAX_RETRIES cfg \<longrightarrow> \<not> below_thresholds cfg (polls k)"
  have "\<forall>k<nat (MAX_RETRIES cfg). \<not> below_thresholds cfg (polls k)"
    using all assms(1) by auto
  then show "\<exists>s'. admit cfg polls ph s = Inr s' \<and>
             sleeps s' = sleeps s @
               map (\<lambda>k. BASE_WAIT_TIME cfg * 2 ^ k) [0..<nat (MAX_RETRIES cfg)] \<and>
             length (sleeps s') = length (sleeps s) + nat (MAX_RETRIES cfg) \<and>
             last (log s') = (WARNING, MaxRetriesReached)"
    using admit_stops_at[of cfg "nat (MAX_RETRIES cfg)" polls ph s] assms by auto
next
  assume "int j < MAX_RETRIES cfg \<and> (\<forall>k<j. \<not> below_thresholds cfg (polls k)) \<and>
            below_thresholds cfg (polls j)"
  then show "\<exists>s'. admit cfg polls ph s = Inr s' \<and>
             sleeps s' = sleeps s @ map (\<lambda>k. BASE_WAIT_TIME cfg * 2 ^ k) [0..<j] \<and>
             last (log s') = (INFO, ProceedingWithWorkload)"
    using admit_stops_at[of cfg j polls ph s] assms by auto
qed

theorem throttle_backoff_schedule_witness:
  "(\<exists>s'. admit \<lparr>MAX_RETRIES = 3, BASE_WAIT_TIME = 30, CPU_UTILIZATION_THRESHOLD = 100,
              MEMORY_UTILIZATION_THRESHOLD = 4096\<rparr>
            (\<lambda>k. [\<lparr>cpu = 5, memory = 10\<rparr>, \<lparr>cpu = 100, memory = 10\<rparr>]) Train init_state = Inr s' \<and>
          sleeps s' = [30, 60, 120] \<and> last (log s') = (WARNING, MaxRetriesReached)) \<and>
   (\<exists>s'. admit \<lparr>MAX_RETRIES = 3, BASE_WAIT_TIME = 30, CPU_UTILIZATION_THRESHOLD = 100,
              MEMORY_UTILIZATION_THRESHOLD = 4096\<rparr>
            (\<lambda>k. if k = 1 then [\<lparr>cpu = 5, memory = 10\<rparr>] else [\<lparr>cpu = 5, memory = 4096\<rparr>])
            Train init_state = Inr s' \<and>
          sleeps s' = [30] \<and> last (log s') = (INFO, ProceedingWithWorkload))"
proof -
  let ?cfg = "\<lparr>MAX_RETRIES = 3, BASE_WAIT_TIME = 30, CPU_UTILIZATION_THRESHOLD = 100,
              MEMORY_UTILIZATION_THRESHOLD = 4096\<rparr>"
  have up: "[0..<3] = [0, 1, 2]" "[0..<1] = [0]" by (simp_all add: upt_conv_Cons)
  have a: "\<exists>s'. admit ?cfg (\<lambda>k. [\<lparr>cpu = 5, memory = 10\<rparr>, \<lparr>cpu = 100, memory = 10\<rparr>])
             Train init_state = Inr s' \<and>
          sleeps s' = [30, 60, 120] \<and> last (log s') = (WARNING, MaxRetriesReached)"
    using throttle_backoff_schedule[where cfg = ?cfg and j = 0 and ph = Train
        and s = init_state
        and polls = "\<lambda>k. [\<lparr>cpu = 5, memory = 10\<rparr>, \<lparr>cpu = 100, memory = 10\<rparr>]"]
    by (auto simp: below_thresholds_def all_workers_below_cpu_threshold_def
        all_workers_below_memory_threshold_def init_state_def up)
  have b: "\<exists>s'. admit ?cfg
            (\<lambda>k. if k = 1 then [\<lparr>cpu = 5, memory = 10\<rparr>] else [\<lparr>cpu = 5, memory = 4096\<rparr>])
            Train init_state = Inr s' \<and>
          sleeps s' = [30] \<and> last (log s') = (INFO, ProceedingWithWorkload)"
    using throttle_backoff_schedule[where cfg = ?cfg and j = 1 and ph = Train
        and s = init_state
        and polls = "\<lambda>k. if k = 1 then [\<lparr>cpu = 5, memory = 10\<rparr>]
                         else [\<lparr>cpu = 5, memory = 4096\<rparr>]"]
    by (auto simp: below_thresholds_def all_workers_below_cpu_threshold_def
        all_workers_below_memory_threshold_def init_state_def up)
  show ?thesis using a b by blast
qed

section \<open>Properties of the combination sampler\<close>

lemma length_combinations: "length (combinations ts) = 90 * length ts"
  by (induction ts)
     (simp_all add: combinations_def alpha_values_def beta_values_def arange_values_def
        phases_def)

lemma set_combinations:
  "set (combinations ts) = set ts \<times> set alpha_values \<times> set beta_values \<times> set phases"
  by (auto simp: combinations_def)

lemma py_range_5_10: "py_range 5 11 5 = Inr [5, 10]"
  by (simp add: py_range_def range_len_def upt_conv_Cons)

lemma py_range_5_5: "py_range 5 6 1 = Inr [5]"
  by (simp add: py_range_def range_len_def upt_conv_Cons)

lemma sample_size_180: "sample_size sample_fraction (combinations [5, 10]) = 67"
  by (simp add: sample_size_def length_combinations sample_fraction_def py_int_def
      floor_eq_iff)

lemma sample_size_90: "sample_size sample_fraction (combinations [5]) = 33"
  by (simp add: sample_size_def length_combinations sample_fraction_def py_int_def
      floor_eq_iff)

text \<open>
  Claim C5, as stated (round to nearest), fails for the fraction of the code and
  the 90 combinations of a single topic count: \<open>0.375 * 90 = 33.75\<close> is truncated
  to 33 where rounding gives 34.
\<close>

theorem sample_size_round_counterexample:
  "sample_size sample_fraction (combinations [5]) = 33 \<and>
   clamp (round (sample_fraction * of_nat (length (combinations [5])))) 1
     (int (length (combinations [5]))) = 34"
proof (rule conjI)
  show "sample_size sample_fraction (combinations [5]) = 33"
    by (rule sample_size_90)
  show "clamp (round (sample_fraction * of_nat (length (combinations [5])))) 1
     (int (length (combinations [5]))) = 34"
    by (simp add: length_combinations clamp_def sample_fraction_def round_def floor_eq_iff)
qed

text \<open>
  Claim C5, amended: for every fraction \<open>f\<close> and every non-empty combination list
  of size \<open>N\<close>, the sample size is \<open>f * N\<close> rounded down (the truncation of
  \<^verbatim>\<open>int\<close>), bounded below by 1 and above by \<open>N\<close>.
\<close>

theorem sample_size_clamp_floor:
  assumes "combs \<noteq> []"
  shows "sample_size f combs =
           clamp \<lfloor>f * of_nat (length combs)\<rfloor> 1 (int (length combs))"
proof -
  let ?x = "of_nat (length combs) * f"
  have n: "1 \<le> int (length combs)" using assms by (cases combs) simp_all
  have neg: "\<lceil>?x\<rceil> \<le> 0" "\<lfloor>?x\<rfloor> \<le> 0" if "\<not> 0 \<le> ?x"
  proof -
    from that have "?x \<le> 0" by simp
    then show "\<lceil>?x\<rceil> \<le> 0" by (simp add: ceiling_le_iff)
    from \<open>?x \<le> 0\<close> show "\<lfloor>?x\<rfloor> \<le> 0" by (simp add: floor_le_iff)
  qed
  show ?thesis
  proof (cases "0 \<le> ?x")
    case True
    then show ?thesis using n
      by (auto simp: sample_size_def py_int_def clamp_def mult.commute)
  next
    case False
    then show ?thesis using n neg[OF False]
      by (auto simp: sample_size_def py_int_def clamp_def mult.commute)
  qed
qed

theorem sample_size_clamp_floor_witness:
  "combinations [5, 10] \<noteq> [] \<and>
   sample_size sample_fraction (combinations [5, 10]) = clamp 67 1 180"
proof -
  have ne: "combinations [5, 10] \<noteq> []"
    using length_combinations[of "[5, 10]"] by auto
  have "\<lfloor>sample_fraction * of_nat (length (combinations [5, 10::int]))\<rfloor> = 67"
    by (simp add: length_combinations sample_fraction_def floor_eq_iff)
  then show ?thesis
    using ne sample_size_clamp_floor[OF ne, of sample_fraction]
    by (simp add: length_combinations)
qed

text \<open>
  Claim C6: whatever positions the random draw selects, the sampled combinations
  and the undrawn combinations are disjoint and together make up the Cartesian
  product of the topic counts, the prior values of both axes and the phases.
\<close>

theorem sampled_undrawn_partition:
  assumes "py_range START_TOPICS (END_TOPICS + 1) STEP_SIZE = Inr topics"
    and "topics \<noteq> []"
    and "valid_draw draw (length (combinations topics))
           (sample_size sample_fraction (combinations topics))"
  shows "\<exists>random_combinations undrawn_combinations.
           sampler START_TOPICS END_TOPICS STEP_SIZE draw =
             Inr (random_combinations, undrawn_combinations) \<and>
           set random_combinations \<inter> undrawn_combinations = {} \<and>
           set random_combinations \<union> undrawn_combinations =
             set topics \<times> set alpha_values \<times> set beta_values \<times> set phases \<and>
           int (length random_combinations) =
             sample_size sample_fraction (combinations topics)"
proof -
  let ?combs = "combinations topics"
  let ?k = "sample_size sample_fraction ?combs"
  let ?rc = "map (\<lambda>i. ?combs ! i) draw"
  have k: "\<not> (?k < 0 \<or> int (length ?combs) < ?k)"
    by (simp add: sample_size_def)
  have run: "sampler START_TOPICS END_TOPICS STEP_SIZE draw =
               Inr (?rc, set ?combs - set ?rc)"
    using assms(1,2) k
    by (simp add: sampler_def numeric_symmetric_def random_sample_def)
  have "\<forall>i\<in>set draw. i < length ?combs"
    using assms(3) by (simp add: valid_draw_def list_all_iff)
  then have sub: "set ?rc \<subseteq> set ?combs" by auto
  have len: "int (length ?rc) = ?k" using assms(3) by (simp add: valid_draw_def)
  have "set ?rc \<inter> (set ?combs - set ?rc) = {}" by blast
  moreover have "set ?rc \<union> (set ?combs - set ?rc) = set ?combs" using sub by blast
  ultimately show ?thesis using run len by (simp add: set_combinations)
qed

theorem sampled_undrawn_partition_witness:
  "\<exists>random_combinations undrawn_combinations.
     sampler 5 5 1 [0..<33] = Inr (random_combinations, undrawn_combinations) \<and>
     set random_combinations \<inter> undrawn_combinations = {} \<and>
     set random_combinations \<union> undrawn_combinations =
       {5} \<times> set alpha_values \<times> set beta_values \<times> set phases \<and>
     length random_combinations = 33"
proof -
  have "valid_draw [0..<33] (length (combinations [5]))
          (sample_size sample_fraction (combinations [5]))"
    by (simp add: valid_draw_def sample_size_90 length_combinations list_all_iff)
  then show ?thesis
    using sampled_undrawn_partition[of 5 5 1 "[5]" "[0..<33]"] py_range_5_5
    by (simp add: sample_size_90)
qed

text \<open>
  Claim C8, as stated, fails: with the topic counts 5 and 10 the product does not
  have 24 entries and the sample size is not 9.
\<close>

theorem scenario_counterexample:
  "py_range 5 (10 + 1) 5 = Inr [5, 10] \<and>
   length (combinations [5, 10]) \<noteq> 24 \<and>
   sample_size sample_fraction (combinations [5, 10]) \<noteq> 9"
  by (simp add: py_range_5_10 sample_size_180 length_combinations)

text \<open>
  Claim C8, amended: the topic range from 5 to 10 in steps of 5 has the two
  entries 5 and 10, so \<open>num_topics = 2\<close> and \<open>numeric_symmetric = 0.5\<close>; with the six
  values of the first prior axis and the five of the second the product has
  \<open>2 * 6 * 5 * 3 = 180\<close> entries, and the fraction 0.375 gives the sample size
  \<open>int(67.5) = 67\<close>.
\<close>

theorem scenario_two_topics:
  "py_range 5 (10 + 1) 5 = Inr [5, 10] \<and>
   length [5, 10 :: int] = 2 \<and>
   numeric_symmetric (length [5, 10 :: int]) = Inr (1 / 2) \<and>
   length alpha_values = 6 \<and> length beta_values = 5 \<and> length phases = 3 \<and>
   length (combinations [5, 10]) = 2 * 6 * 5 * 3 \<and>
   sample_size sample_fraction (combinations [5, 10]) = 67"
proof -
  have "length alpha_values = 6 \<and> length beta_values = 5 \<and> length phases = 3"
    by (simp add: alpha_values_def beta_values_def arange_values_def phases_def)
  then show ?thesis
    by (simp add: py_range_5_10 sample_size_180 length_combinations numeric_symmetric_def)
qed


section \<open>Properties of the phase scheduler\<close>

subsection \<open>What each loop leaves unchanged\<close>

lemma throttle_loop_keeps:
  "throttle_loop cfg polls ph a s = Inr (j, s') \<Longrightarrow>
     train_models_dict s' = train_models_dict s \<and> n_topics s' = n_topics s \<and>
     alpha_value s' = alpha_value s \<and> beta_value s' = beta_value s"
proof (induction cfg polls ph a s rule: throttle_loop.induct)
  case (1 cfg polls ph a s)
  show ?case
  proof (cases "int a < MAX_RETRIES cfg \<and> \<not> below_thresholds cfg (polls a)")
    case False
    then have "throttle_loop cfg polls ph a s = Inr (a, s)"
      by (subst throttle_loop.simps) auto
    with "1.prems" show ?thesis by simp
  next
    case True
    define s2 where "s2 = logging WARNING (ThrottleContext ph (n_topics s))
       (logging WARNING (AdaptiveThrottling a (MAX_RETRIES cfg - 1)) s)"
    define d where "d = BASE_WAIT_TIME cfg * 2 ^ a"
    show ?thesis
    proof (cases "d < 0")
      case neg: True
      have "throttle_loop cfg polls ph a s = Inl (ValueError, s2)"
        using True neg
        by (subst throttle_loop.simps)
           (simp add: exponential_backoff_def sleep_def s2_def d_def logging_def Let_def)
      with "1.prems" show ?thesis by simp
    next
      case pos: False
      define s3 where "s3 = s2\<lparr>sleeps := sleeps s2 @ [d]\<rparr>"
      have step: "throttle_loop cfg polls ph a s = throttle_loop cfg polls ph (Suc a) s3"
        using True pos
        by (subst throttle_loop.simps)
           (simp add: exponential_backoff_def sleep_def s2_def s3_def d_def logging_def Let_def)
      have "train_models_dict s' = train_models_dict s3 \<and> n_topics s' = n_topics s3 \<and>
            alpha_value s' = alpha_value s3 \<and> beta_value s' = beta_value s3"
        using "1.IH"[of "logging WARNING (AdaptiveThrottling a (MAX_RETRIES cfg - 1)) s"
            s2 d s3] True pos step "1.prems"
        by (simp add: s2_def s3_def d_def exponential_backoff_def sleep_def logging_def)
      then show ?thesis by (simp add: s3_def s2_def logging_def)
    qed
  qed
qed

lemma admit_keeps:
  assumes "admit cfg polls ph s = Inr s'"
  shows "train_models_dict s' = train_models_dict s \<and> n_topics s' = n_topics s \<and>
     alpha_value s' = alpha_value s \<and> beta_value s' = beta_value s"
proof -
  obtain j s1 where run: "throttle_loop cfg polls ph 0 (logging INFO EvaluatingThrottle s) = Inr (j, s1)"
    and s': "s' = logging WARNING MaxRetriesReached s1 \<or> s' = logging INFO ProceedingWithWorkload s1"
    using assms by (auto simp: admit_def split: sum.splits prod.splits if_splits)
  from throttle_loop_keeps[OF run] s' show ?thesis by (auto simp: logging_def)
qed

lemma train_submit_keeps:
  "train_submit sub i pool s = Inr s' \<Longrightarrow>
     train_models_dict s' = train_models_dict s \<and> n_topics s' = n_topics s \<and>
     alpha_value s' = alpha_value s \<and> beta_value s' = beta_value s"
proof (induction pool arbitrary: s)
  case Nil
  then show ?case by simp
next
  case (Cons h pool)
  from Cons.prems show ?case
    by (auto simp: logging_def Let_def split: option.splits dest!: Cons.IH)
qed

lemma record_models_dom:
  "record_models rs s = Inr s' \<Longrightarrow> dom (train_models_dict s) \<subseteq> dom (train_models_dict s')"
proof (induction rs arbitrary: s)
  case Nil
  then show ?case by simp
next
  case (Cons r rs)
  from Cons.prems obtain a b where
    rest: "record_models rs
             (s\<lparr>n_topics := res_topics r, alpha_value := a, beta_value := b,
                train_models_dict := (train_models_dict s)((res_topics r, a, b) \<mapsto>
                   res_lda_model r)\<rparr>) = Inr s'"
    by (auto simp: Let_def split: sum.splits)
  define s1 where "s1 = s\<lparr>n_topics := res_topics r, alpha_value := a, beta_value := b,
                train_models_dict := (train_models_dict s)((res_topics r, a, b) \<mapsto>
                   res_lda_model r)\<rparr>"
  have d: "train_models_dict s1 =
             (train_models_dict s)((res_topics r, a, b) \<mapsto> res_lda_model r)"
    by (simp add: s1_def)
  have "dom (train_models_dict s) \<subseteq> dom (train_models_dict s1)"
    unfolding d by auto
  also have "\<dots> \<subseteq> dom (train_models_dict s')"
    using rest unfolding s1_def[symmetric] by (rule Cons.IH)
  finally show ?case .
qed

lemma validation_step_dict [simp]:
  "train_models_dict (validation_step sub i batch s) = train_models_dict s"
  by (cases batch) (simp add: validation_step_def logging_def Let_def split: option.splits)

lemma validation_submit_dict [simp]:
  "train_models_dict (validation_submit sub i batches s) = train_models_dict s"
  by (induction batches arbitrary: s) simp_all

lemma test_step_dict [simp]:
  "train_models_dict (test_step sub i h s) = train_models_dict s"
  by (simp add: test_step_def test_failed_def logging_def Let_def split: option.splits sum.splits)

lemma test_submit_dict [simp]:
  "train_models_dict (test_submit sub i pool s) = train_models_dict s"
  by (induction pool arbitrary: s) simp_all


subsection \<open>The model index across iterations\<close>

lemma train_phase_dom:
  assumes "train_phase sub inp i s = Inr (rs, s')"
  shows "dom (train_models_dict s) \<subseteq> dom (train_models_dict s')"
proof -
  from assms obtain s1 where sub1: "train_submit sub i (scattered_train_data_futures inp) s = Inr s1"
    and rec: "record_models rs s1 = Inr s'"
    by (auto simp: train_phase_def split: sum.splits)
  from train_submit_keeps[OF sub1] record_models_dom[OF rec] show ?thesis by simp
qed

lemma validation_phase_dict:
  "validation_phase sub inp i s = Inr s' \<Longrightarrow> train_models_dict s' = train_models_dict s"
  by (auto simp: validation_phase_def Let_def split: sum.splits)

lemma test_phase_dict:
  "test_phase sub inp i s = Inr s' \<Longrightarrow> train_models_dict s' = train_models_dict s"
  by (auto simp: test_phase_def Let_def split: sum.splits)

lemma phase_group_dom:
  assumes "phase_group sub inp i comb s = Inr (rs, s')"
  shows "dom (train_models_dict s) \<subseteq> dom (train_models_dict s')"
proof -
  obtain n a b ph where comb: "comb = (n, a, b, ph)" by (cases comb) auto
  from assms comb obtain s1 s2 s3 where
    ad: "admit (settings inp) (scheduler_info sub i) ph
           (s\<lparr>n_topics := n, alpha_value := a, beta_value := b\<rparr>) = Inr s1"
    and tr: "train_phase sub inp i s1 = Inr (rs, s2)"
    and va: "validation_phase sub inp i s2 = Inr s3"
    and te: "test_phase sub inp i s3 = Inr s'"
    by (auto simp: phase_group_def split: sum.splits prod.splits)
  have "train_models_dict s1 = train_models_dict s" using admit_keeps[OF ad] by simp
  moreover note train_phase_dom[OF tr] validation_phase_dict[OF va] test_phase_dict[OF te]
  ultimately show ?thesis by simp
qed

lemma recycle_dict [simp]: "train_models_dict (recycle s) = train_models_dict s"
  by (simp add: recycle_def)

lemma iteration_dom:
  assumes "iteration sub inp i comb s = Inr (sg, s')"
  shows "dom (train_models_dict s) \<subseteq> dom (train_models_dict s')"
proof -
  from assms obtain rs s1 where pg: "phase_group sub inp i comb s = Inr (rs, s1)"
    and s': "s' = s1 \<or> s' = recycle (logging INFO FinishedWrite s1)"
    by (auto simp: iteration_def split: sum.splits prod.splits option.splits if_splits)
  from s' have "train_models_dict s' = train_models_dict s1"
    by (auto simp: logging_def)
  with phase_group_dom[OF pg] show ?thesis by simp
qed

lemma sweep_loop_dom:
  "sweep_loop sub inp i rest s = Inr s' \<Longrightarrow>
     dom (train_models_dict s) \<subseteq> dom (train_models_dict s')"
proof (induction rest arbitrary: i s)
  case Nil
  then show ?case by simp
next
  case (Cons comb rest)
  from Cons.prems obtain sg s1 where it: "iteration sub inp i comb s = Inr (sg, s1)"
    and cont: "(sg = Break \<and> s' = s1) \<or>
               (sg = Continue \<and> sweep_loop sub inp (Suc i) rest s1 = Inr s')"
    by (auto split: sum.splits prod.splits signal.splits)
  from cont have "dom (train_models_dict s1) \<subseteq> dom (train_models_dict s')"
  proof
    assume "sg = Break \<and> s' = s1"
    then show ?thesis by simp
  next
    assume "sg = Continue \<and> sweep_loop sub inp (Suc i) rest s1 = Inr s'"
    then have "sweep_loop sub inp (Suc i) rest s1 = Inr s'" by simp
    then show ?thesis by (rule Cons.IH)
  qed
  with iteration_dom[OF it] show ?case by blast
qed


subsection \<open>The small run\<close>

lemma admit_idle:
  assumes "0 < MAX_RETRIES cfg" and "below_thresholds cfg (polls 0)"
  shows "admit cfg polls ph s =
           Inr (logging INFO ProceedingWithWorkload (logging INFO EvaluatingThrottle s))"
proof -
  have "throttle_loop cfg polls ph 0 (logging INFO EvaluatingThrottle s) =
          Inr (0, logging INFO EvaluatingThrottle s)"
    using assms by (subst throttle_loop.simps) simp
  then show ?thesis using assms by (simp add: admit_def)
qed

lemmas small_run_defs =
  iteration_def phase_group_def admit_def throttle_loop.simps below_thresholds_def
  all_workers_below_cpu_threshold_def all_workers_below_memory_threshold_def
  train_phase_def validation_phase_def test_phase_def validation_batches_def
  validation_step_def first_or_self_def recycle_def logging_def Let_def
  two_combinations_def echo_substrate_def

lemma small_run_first_iteration:
  "iteration echo_substrate two_combinations 0
     (5, Sym ''symmetric'', Sym ''symmetric'', Train) init_state =
   Inr (Continue, after_first_iteration)"
  by (simp add: small_run_defs after_first_iteration_def init_state_def)

lemma small_run_second_iteration:
  "phase_group echo_substrate two_combinations 1
     (10, Sym ''symmetric'', Sym ''symmetric'', Validation) after_first_iteration =
   Inr ([\<lparr>res_topics = 10, res_alpha_str = Scalar (Sym ''symmetric''),
           res_beta_str = Scalar (Sym ''symmetric''), res_lda_model = LdaModel 10\<rparr>],
        in_second_iteration)"
  by (simp add: small_run_defs after_first_iteration_def in_second_iteration_def)


subsection \<open>Lookup misses\<close>

text \<open>
  Claim C4: when the key of a validation batch, or the key a test handle carries,
  is absent from the model index, the loop body submits nothing (the lists of
  pending tasks are unchanged), logs exactly one error record, and the loop goes
  on with the next batch; the loops return a state, never an exception.
\<close>

theorem missing_model_is_skipped:
  "(train_models_dict s (n, a, b) = None \<longrightarrow>
      validation_step sub i (h, n, a, b) s =
        s\<lparr>n_topics := n, alpha_value := a, beta_value := b,
          log := log s @ [(ERROR, ModelNotFound (n, a, b))]\<rparr> \<and>
      validation_futures (validation_step sub i (h, n, a, b) s) = validation_futures s \<and>
      validation_submit sub i ((h, n, a, b) # batches) s =
        validation_submit sub i batches
          (s\<lparr>n_topics := n, alpha_value := a, beta_value := b,
             log := log s @ [(ERROR, ModelNotFound (n, a, b))]\<rparr>)) \<and>
   (handle_result sub h =
      Inr \<lparr>tr_n_topics = Some n, tr_alpha_value = Some a, tr_beta_value = Some b\<rparr> \<and>
    train_models_dict s (n, a, b) = None \<longrightarrow>
      test_step sub i h s =
        s\<lparr>n_topics := n, alpha_value := a, beta_value := b,
          log := log s @ [(ERROR, ModelNotFound (n, a, b))]\<rparr> \<and>
      test_futures (test_step sub i h s) = test_futures s \<and>
      test_submit sub i (h # pool) s =
        test_submit sub i pool
          (s\<lparr>n_topics := n, alpha_value := a, beta_value := b,
             log := log s @ [(ERROR, ModelNotFound (n, a, b))]\<rparr>))"
  by (simp add: validation_step_def test_step_def logging_def Let_def)

theorem missing_model_is_skipped_witness:
  "train_models_dict after_first_iteration (10, Sym ''symmetric'', Sym ''symmetric'') = None \<and>
   validation_step echo_substrate 1 (Handle 1, 10, Sym ''symmetric'', Sym ''symmetric'')
       after_first_iteration =
     after_first_iteration\<lparr>n_topics := 10, alpha_value := Sym ''symmetric'',
       beta_value := Sym ''symmetric'',
       log := log after_first_iteration @
         [(ERROR, ModelNotFound (10, Sym ''symmetric'', Sym ''symmetric''))]\<rparr> \<and>
   handle_result (echo_substrate\<lparr>handle_result := \<lambda>h. Inr \<lparr>tr_n_topics = Some 10,
       tr_alpha_value = Some (Sym ''symmetric''),
       tr_beta_value = Some (Sym ''symmetric'')\<rparr>\<rparr>) (Handle 2) =
     Inr \<lparr>tr_n_topics = Some 10, tr_alpha_value = Some (Sym ''symmetric''),
       tr_beta_value = Some (Sym ''symmetric'')\<rparr> \<and>
   test_futures (test_step (echo_substrate\<lparr>handle_result := \<lambda>h. Inr \<lparr>tr_n_topics = Some 10,
       tr_alpha_value = Some (Sym ''symmetric''),
       tr_beta_value = Some (Sym ''symmetric'')\<rparr>\<rparr>) 1 (Handle 2) after_first_iteration) = []"
proof -
  have none: "train_models_dict after_first_iteration
                (10, Sym ''symmetric'', Sym ''symmetric'') = None"
    by (simp add: after_first_iteration_def)
  have hr: "handle_result (echo_substrate\<lparr>handle_result := \<lambda>h. Inr \<lparr>tr_n_topics = Some 10,
       tr_alpha_value = Some (Sym ''symmetric''),
       tr_beta_value = Some (Sym ''symmetric'')\<rparr>\<rparr>) (Handle 2) =
     Inr \<lparr>tr_n_topics = Some 10, tr_alpha_value = Some (Sym ''symmetric''),
       tr_beta_value = Some (Sym ''symmetric'')\<rparr>"
    by simp
  have empty: "test_futures after_first_iteration = []"
    by (simp add: after_first_iteration_def)
  from missing_model_is_skipped[where s = after_first_iteration and n = 10
      and a = "Sym ''symmetric''" and b = "Sym ''symmetric''" and sub = echo_substrate
      and i = 1 and h = "Handle 1"] none
  have v: "validation_step echo_substrate 1 (Handle 1, 10, Sym ''symmetric'', Sym ''symmetric'')
       after_first_iteration =
     after_first_iteration\<lparr>n_topics := 10, alpha_value := Sym ''symmetric'',
       beta_value := Sym ''symmetric'',
       log := log after_first_iteration @
         [(ERROR, ModelNotFound (10, Sym ''symmetric'', Sym ''symmetric''))]\<rparr>"
    by blast
  from missing_model_is_skipped[where s = after_first_iteration and n = 10
      and a = "Sym ''symmetric''" and b = "Sym ''symmetric''"
      and sub = "echo_substrate\<lparr>handle_result := \<lambda>h. Inr \<lparr>tr_n_topics = Some 10,
         tr_alpha_value = Some (Sym ''symmetric''),
         tr_beta_value = Some (Sym ''symmetric'')\<rparr>\<rparr>"
      and i = 1 and h = "Handle 2"] none hr empty
  have t: "test_futures (test_step (echo_substrate\<lparr>handle_result := \<lambda>h. Inr \<lparr>tr_n_topics = Some 10,
       tr_alpha_value = Some (Sym ''symmetric''),
       tr_beta_value = Some (Sym ''symmetric'')\<rparr>\<rparr>) 1 (Handle 2) after_first_iteration) = []"
    by metis
  from none v hr t show ?thesis by blast
qed


subsection \<open>Pairing of validation batches with sampled combinations\<close>

lemma zip_take_right: "zip xs (take (length xs) ys) = zip xs ys"
proof (induction xs arbitrary: ys)
  case Nil
  then show ?case by simp
next
  case (Cons x xs)
  then show ?case by (cases ys) simp_all
qed

lemma zip_take_left: "zip (take (length ys) xs) ys = zip xs ys"
proof (induction ys arbitrary: xs)
  case Nil
  then show ?case by simp
next
  case (Cons y ys)
  then show ?case by (cases xs) simp_all
qed

lemma validation_batches_data:
  "map fst (validation_batches pool combs) = take (length combs) pool"
proof (induction pool arbitrary: combs)
  case Nil
  then show ?case by (simp add: validation_batches_def)
next
  case (Cons h pool)
  then show ?case by (cases combs) (auto simp: validation_batches_def)
qed

text \<open>
  Claim C9: the validation pairing has as many batches as the shorter of the
  validation pool and the sample; its handles are the first handles of the pool.
  The validation phase of a pool with excess handles is the validation phase of
  the pool without them, so an excess handle is neither submitted nor logged, and
  combinations beyond the length of the pool do not take part either.
\<close>

theorem validation_pairing_truncates:
  "length (validation_batches pool combs) = min (length pool) (length combs) \<and>
   map fst (validation_batches pool combs) = take (length combs) pool \<and>
   validation_batches (take (length combs) pool) combs = validation_batches pool combs \<and>
   validation_batches pool (take (length pool) combs) = validation_batches pool combs \<and>
   validation_phase sub
     (inp\<lparr>scattered_validation_data_futures :=
        take (length (random_combinations inp)) (scattered_validation_data_futures inp)\<rparr>)
     i s = validation_phase sub inp i s \<and>
   validation_phase sub
     (inp\<lparr>random_combinations :=
        take (length (scattered_validation_data_futures inp)) (random_combinations inp)\<rparr>)
     i s = validation_phase sub inp i s"
  by (simp add: validation_batches_data validation_phase_def zip_take_left zip_take_right)
     (simp add: validation_batches_def zip_take_left zip_take_right)

theorem validation_pairing_truncates_witness:
  "length (validation_batches [Handle 1, Handle 2, Handle 3]
      (random_combinations two_combinations)) = 2 \<and>
   map fst (validation_batches [Handle 1, Handle 2, Handle 3]
      (random_combinations two_combinations)) = [Handle 1, Handle 2] \<and>
   validation_phase echo_substrate
     (two_combinations\<lparr>scattered_validation_data_futures := [Handle 1, Handle 2]\<rparr>)
     1 after_first_iteration =
   validation_phase echo_substrate
     (two_combinations\<lparr>scattered_validation_data_futures := [Handle 1, Handle 2, Handle 3]\<rparr>)
     1 after_first_iteration"
  using validation_pairing_truncates[where pool = "[Handle 1, Handle 2, Handle 3]"
      and combs = "random_combinations two_combinations" and sub = echo_substrate
      and inp = "two_combinations\<lparr>scattered_validation_data_futures :=
                   [Handle 1, Handle 2, Handle 3]\<rparr>"
      and i = 1 and s = after_first_iteration]
  by (simp add: two_combinations_def)


subsection \<open>Failing submissions\<close>

lemma train_submit_raises:
  assumes "n_topics s = n" and "alpha_value s = a" and "beta_value s = b"
    and "\<forall>h'\<in>set pre. submit sub i \<lparr>t_n_topics = n, t_alpha = a, t_beta = b,
            t_data = h', t_phase = Train, t_ldamodel = None\<rparr> = None"
    and "submit sub i \<lparr>t_n_topics = n, t_alpha = a, t_beta = b,
            t_data = h, t_phase = Train, t_ldamodel = None\<rparr> = Some e"
  shows "\<exists>s' l. train_submit sub i (pre @ h # post) s = Inl (e, s') \<and>
           log s' = log s @ l @
             [(ERROR, TrainSubmitError e), (ERROR, TrainContext n a b)]"
  using assms
proof (induction pre arbitrary: s)
  case Nil
  then show ?case by (simp add: logging_def)
next
  case (Cons h0 pre)
  define s1 where "s1 = logging INFO (TrainFutureAppended (Suc (length (train_futures s))))
     (s\<lparr>train_futures := train_futures s @
          [\<lparr>t_n_topics = n, t_alpha = a, t_beta = b, t_data = h0, t_phase = Train,
            t_ldamodel = None\<rparr>]\<rparr>)"
  have step: "train_submit sub i ((h0 # pre) @ h # post) s =
                train_submit sub i (pre @ h # post) s1"
    using Cons.prems by (simp add: s1_def Let_def)
  have vars: "n_topics s1 = n" "alpha_value s1 = a" "beta_value s1 = b"
    using Cons.prems by (simp_all add: s1_def logging_def)
  have "\<exists>s' l. train_submit sub i (pre @ h # post) s1 = Inl (e, s') \<and>
           log s' = log s1 @ l @
             [(ERROR, TrainSubmitError e), (ERROR, TrainContext n a b)]"
    using Cons.prems by (intro Cons.IH vars) simp_all
  then obtain s' l where r: "train_submit sub i (pre @ h # post) s1 = Inl (e, s')"
    and l: "log s' = log s1 @ l @
             [(ERROR, TrainSubmitError e), (ERROR, TrainContext n a b)]"
    by blast
  have "log s1 = log s @ [(INFO, TrainFutureAppended (Suc (length (train_futures s))))]"
    by (simp add: s1_def logging_def)
  with l have "log s' = log s @
      ((INFO, TrainFutureAppended (Suc (length (train_futures s)))) # l) @
      [(ERROR, TrainSubmitError e), (ERROR, TrainContext n a b)]"
    by simp
  with r step show ?case by metis
qed

lemma train_failure_halts_sweep:
  assumes ad: "admit (settings inp) (scheduler_info sub i) ph
                 (s\<lparr>n_topics := n, alpha_value := a, beta_value := b\<rparr>) = Inr s1"
    and pool: "scattered_train_data_futures inp = pre @ h # post"
    and ok: "\<forall>h'\<in>set pre. submit sub i \<lparr>t_n_topics = n, t_alpha = a, t_beta = b,
            t_data = h', t_phase = Train, t_ldamodel = None\<rparr> = None"
    and bad: "submit sub i \<lparr>t_n_topics = n, t_alpha = a, t_beta = b,
            t_data = h, t_phase = Train, t_ldamodel = None\<rparr> = Some e"
  shows "\<exists>s' l. sweep_loop sub inp i ((n, a, b, ph) # rest) s = Inl (e, s') \<and>
           log s' = l @ [(ERROR, TrainSubmitError e), (ERROR, TrainContext n a b)]"
proof -
  have vars: "n_topics s1 = n" "alpha_value s1 = a" "beta_value s1 = b"
    using admit_keeps[OF ad] by simp_all
  obtain s' l where r: "train_submit sub i (pre @ h # post) s1 = Inl (e, s')"
    and l: "log s' = log s1 @ l @
              [(ERROR, TrainSubmitError e), (ERROR, TrainContext n a b)]"
    using train_submit_raises[OF vars ok bad] by blast
  have "train_phase sub inp i s1 = Inl (e, s')"
    using r pool by (simp add: train_phase_def)
  then have "iteration sub inp i (n, a, b, ph) s = Inl (e, s')"
    using ad by (simp add: iteration_def phase_group_def)
  then have "sweep_loop sub inp i ((n, a, b, ph) # rest) s = Inl (e, s')"
    by simp
  moreover have "log s' = (log s1 @ l) @
      [(ERROR, TrainSubmitError e), (ERROR, TrainContext n a b)]"
    using l by simp
  ultimately show ?thesis by blast
qed

text \<open>
  Claim C7: when the submission of a training task raises (the admission check
  having returned, and the earlier training handles of the wave having been
  submitted), the sweep ends with that exception, and the last two records of
  the log are the error and the parameters of the current combination. When the
  submission of a validation or of a test task raises, the loop body logs two
  error records, leaves the lists of pending tasks as they are and the loop goes
  on with the remaining batches, returning a state.
\<close>

theorem submission_failure_policy:
  "(admit (settings inp) (scheduler_info sub i) ph
        (s\<lparr>n_topics := n, alpha_value := a, beta_value := b\<rparr>) = Inr s1 \<and>
    scattered_train_data_futures inp = pre @ h # post \<and>
    (\<forall>h'\<in>set pre. submit sub i \<lparr>t_n_topics = n, t_alpha = a, t_beta = b,
            t_data = h', t_phase = Train, t_ldamodel = None\<rparr> = None) \<and>
    submit sub i \<lparr>t_n_topics = n, t_alpha = a, t_beta = b,
            t_data = h, t_phase = Train, t_ldamodel = None\<rparr> = Some e \<longrightarrow>
    (\<exists>s' l. sweep_loop sub inp i ((n, a, b, ph) # rest) s = Inl (e, s') \<and>
        log s' = l @ [(ERROR, TrainSubmitError e), (ERROR, TrainContext n a b)])) \<and>
   (train_models_dict s (n, a, b) = Some m \<and>
    submit sub i \<lparr>t_n_topics = n, t_alpha = a, t_beta = b,
            t_data = h, t_phase = Validation, t_ldamodel = Some m\<rparr> = Some e \<longrightarrow>
    validation_step sub i (h, n, a, b) s =
      s\<lparr>n_topics := n, alpha_value := a, beta_value := b,
        log := log s @ [(ERROR, ValidationSubmitError e), (ERROR, ValidationContext n a b)]\<rparr> \<and>
    validation_futures (validation_step sub i (h, n, a, b) s) = validation_futures s \<and>
    validation_submit sub i ((h, n, a, b) # batches) s =
      validation_submit sub i batches
        (s\<lparr>n_topics := n, alpha_value := a, beta_value := b,
           log := log s @
             [(ERROR, ValidationSubmitError e), (ERROR, ValidationContext n a b)]\<rparr>)) \<and>
   (handle_result sub h =
      Inr \<lparr>tr_n_topics = Some n, tr_alpha_value = Some a, tr_beta_value = Some b\<rparr> \<and>
    train_models_dict s (n, a, b) = Some m \<and>
    submit sub i \<lparr>t_n_topics = n, t_alpha = a, t_beta = b,
            t_data = h, t_phase = Test, t_ldamodel = Some m\<rparr> = Some e \<longrightarrow>
    test_step sub i h s =
      s\<lparr>n_topics := n, alpha_value := a, beta_value := b,
        log := log s @ [(ERROR, TestSubmitError e), (ERROR, TestContext n)]\<rparr> \<and>
    test_futures (test_step sub i h s) = test_futures s \<and>
    test_submit sub i (h # pool) s =
      test_submit sub i pool
        (s\<lparr>n_topics := n, alpha_value := a, beta_value := b,
           log := log s @ [(ERROR, TestSubmitError e), (ERROR, TestContext n)]\<rparr>))"
proof (intro conjI impI)
  assume "admit (settings inp) (scheduler_info sub i) ph
        (s\<lparr>n_topics := n, alpha_value := a, beta_value := b\<rparr>) = Inr s1 \<and>
    scattered_train_data_futures inp = pre @ h # post \<and>
    (\<forall>h'\<in>set pre. submit sub i \<lparr>t_n_topics = n, t_alpha = a, t_beta = b,
            t_data = h', t_phase = Train, t_ldamodel = None\<rparr> = None) \<and>
    submit sub i \<lparr>t_n_topics = n, t_alpha = a, t_beta = b,
            t_data = h, t_phase = Train, t_ldamodel = None\<rparr> = Some e"
  then show "\<exists>s' l. sweep_loop sub inp i ((n, a, b, ph) # rest) s = Inl (e, s') \<and>
        log s' = l @ [(ERROR, TrainSubmitError e), (ERROR, TrainContext n a b)]"
    using train_failure_halts_sweep[where inp = inp and sub = sub and i = i and ph = ph
        and s = s and n = n and a = a and b = b and ?s1.0 = s1 and pre = pre and h = h
        and post = post and e = e and rest = rest]
    by blast
qed (simp_all add: validation_step_def test_step_def test_failed_def logging_def Let_def)


theorem submission_failure_policy_witness:
  "(\<exists>s' l. sweep_loop refusing_substrate two_combinations 0
        [(5, Sym ''symmetric'', Sym ''symmetric'', Train),
         (10, Sym ''symmetric'', Sym ''symmetric'', Validation)] init_state =
        Inl (OtherError ''refused'', s') \<and>
      log s' = l @ [(ERROR, TrainSubmitError (OtherError ''refused'')),
                    (ERROR, TrainContext 5 (Sym ''symmetric'') (Sym ''symmetric''))]) \<and>
   validation_futures (validation_step refusing_substrate 1
      (Handle 1, 5, Sym ''symmetric'', Sym ''symmetric'') after_first_iteration) = [] \<and>
   log (validation_step refusing_substrate 1
      (Handle 1, 5, Sym ''symmetric'', Sym ''symmetric'') after_first_iteration) =
     log after_first_iteration @
       [(ERROR, ValidationSubmitError (OtherError ''refused'')),
        (ERROR, ValidationContext 5 (Sym ''symmetric'') (Sym ''symmetric''))] \<and>
   test_futures (test_step refusing_substrate 1 (Handle 2) after_first_iteration) = [] \<and>
   log (test_step refusing_substrate 1 (Handle 2) after_first_iteration) =
     log after_first_iteration @
       [(ERROR, TestSubmitError (OtherError ''refused'')), (ERROR, TestContext 5)]"
proof -
  let ?S = "Sym ''symmetric''"
  let ?e = "OtherError ''refused''"
  have ad: "admit (settings two_combinations) (scheduler_info refusing_substrate 0) Train
              (init_state\<lparr>n_topics := 5, alpha_value := ?S, beta_value := ?S\<rparr>) =
            Inr (logging INFO ProceedingWithWorkload (logging INFO EvaluatingThrottle
              (init_state\<lparr>n_topics := 5, alpha_value := ?S, beta_value := ?S\<rparr>)))"
    by (rule admit_idle)
       (simp_all add: two_combinations_def refusing_substrate_def echo_substrate_def
          below_thresholds_def all_workers_below_cpu_threshold_def
          all_workers_below_memory_threshold_def)
  have pool: "scattered_train_data_futures two_combinations = [] @ Handle 0 # []"
    by (simp add: two_combinations_def)
  have sub: "\<And>i t. submit refusing_substrate i t = Some ?e"
    by (simp add: refusing_substrate_def)
  have hr: "handle_result refusing_substrate (Handle 2) =
      Inr \<lparr>tr_n_topics = Some 5, tr_alpha_value = Some ?S, tr_beta_value = Some ?S\<rparr>"
    by (simp add: refusing_substrate_def)
  have d: "train_models_dict after_first_iteration (5, ?S, ?S) = Some (LdaModel 5)"
    by (simp add: after_first_iteration_def)
  have empty: "validation_futures after_first_iteration = []"
    "test_futures after_first_iteration = []"
    by (simp_all add: after_first_iteration_def)
  note inst1 = submission_failure_policy[where sub = refusing_substrate
      and inp = two_combinations and i = 0 and ph = Train and s = init_state and n = 5
      and a = ?S and b = ?S and pre = "[]" and h = "Handle 0" and post = "[]" and e = ?e
      and rest = "[(10, ?S, ?S, Validation)]"
      and ?s1.0 = "logging INFO ProceedingWithWorkload (logging INFO EvaluatingThrottle
              (init_state\<lparr>n_topics := 5, alpha_value := ?S, beta_value := ?S\<rparr>))"]
  have t: "\<exists>s' l. sweep_loop refusing_substrate two_combinations 0
        [(5, ?S, ?S, Train), (10, ?S, ?S, Validation)] init_state = Inl (?e, s') \<and>
      log s' = l @ [(ERROR, TrainSubmitError ?e), (ERROR, TrainContext 5 ?S ?S)]"
    using inst1 ad pool sub by simp
  note inst2 = submission_failure_policy[where sub = refusing_substrate and i = 1
      and s = after_first_iteration and n = 5 and a = ?S and b = ?S and e = ?e
      and m = "LdaModel 5"]
  have v: "validation_step refusing_substrate 1 (Handle 1, 5, ?S, ?S) after_first_iteration =
      after_first_iteration\<lparr>n_topics := 5, alpha_value := ?S, beta_value := ?S,
        log := log after_first_iteration @
          [(ERROR, ValidationSubmitError ?e), (ERROR, ValidationContext 5 ?S ?S)]\<rparr>"
    using inst2[where h = "Handle 1"] d sub by simp
  have te: "test_step refusing_substrate 1 (Handle 2) after_first_iteration =
      after_first_iteration\<lparr>n_topics := 5, alpha_value := ?S, beta_value := ?S,
        log := log after_first_iteration @
          [(ERROR, TestSubmitError ?e), (ERROR, TestContext 5)]\<rparr>"
    using inst2[where h = "Handle 2"] d sub hr by simp
  have v1: "validation_futures (validation_step refusing_substrate 1
      (Handle 1, 5, ?S, ?S) after_first_iteration) = []"
    unfolding v using empty by simp
  have v2: "log (validation_step refusing_substrate 1
      (Handle 1, 5, ?S, ?S) after_first_iteration) =
     log after_first_iteration @
       [(ERROR, ValidationSubmitError ?e), (ERROR, ValidationContext 5 ?S ?S)]"
    unfolding v by simp
  have t1: "test_futures (test_step refusing_substrate 1 (Handle 2) after_first_iteration) = []"
    unfolding te using empty by simp
  have t2: "log (test_step refusing_substrate 1 (Handle 2) after_first_iteration) =
     log after_first_iteration @ [(ERROR, TestSubmitError ?e), (ERROR, TestContext 5)]"
    unfolding te by simp
  from t v1 v2 t1 t2 show ?thesis by blast
qed


subsection \<open>The key a validation task carries\<close>

lemma validation_submit_futures:
  "validation_futures (validation_submit sub i batches s) =
     validation_futures s @
     concat (map (\<lambda>(h, n, a, b).
        case train_models_dict s (n, a, b) of
          None \<Rightarrow> []
        | Some m \<Rightarrow>
            (case submit sub i \<lparr>t_n_topics = n, t_alpha = a, t_beta = b, t_data = h,
                    t_phase = Validation, t_ldamodel = Some m\<rparr> of
               None \<Rightarrow> [\<lparr>t_n_topics = n, t_alpha = a, t_beta = b, t_data = h,
                          t_phase = Validation, t_ldamodel = Some m\<rparr>]
             | Some e \<Rightarrow> [])) batches)"
proof (induction batches arbitrary: s)
  case Nil
  then show ?case by simp
next
  case (Cons batch batches)
  obtain h n a b where batch: "batch = (h, n, a, b)" by (cases batch) auto
  have step: "validation_futures (validation_step sub i batch s) =
      validation_futures s @
        (case train_models_dict s (n, a, b) of
          None \<Rightarrow> []
        | Some m \<Rightarrow>
            (case submit sub i \<lparr>t_n_topics = n, t_alpha = a, t_beta = b, t_data = h,
                    t_phase = Validation, t_ldamodel = Some m\<rparr> of
               None \<Rightarrow> [\<lparr>t_n_topics = n, t_alpha = a, t_beta = b, t_data = h,
                          t_phase = Validation, t_ldamodel = Some m\<rparr>]
             | Some e \<Rightarrow> []))"
    by (simp add: batch validation_step_def logging_def Let_def split: option.splits)
  show ?case
    by (simp add: Cons.IH[of "validation_step sub i batch s"] step) (simp add: batch)
qed

text \<open>
  Claim C1, amended: in every sweep iteration the validation tasks submitted are,
  in order, those of the pairs of the zip of the validation pool with the sample
  whose key is in the model index and whose submission returns: the task of the
  handle at position \<open>j\<close> carries the key of the sampled combination at position
  \<open>j\<close>, whatever the current combination is, and the model filed under that key.
\<close>

theorem validation_key_by_position:
  "validation_futures
     (validation_submit sub i (validation_batches pool combs) s) =
   validation_futures s @
   concat (map (\<lambda>(h, n, a, b, ph).
      case train_models_dict s (n, a, b) of
        None \<Rightarrow> []
      | Some m \<Rightarrow>
          (case submit sub i \<lparr>t_n_topics = n, t_alpha = a, t_beta = b, t_data = h,
                  t_phase = Validation, t_ldamodel = Some m\<rparr> of
             None \<Rightarrow> [\<lparr>t_n_topics = n, t_alpha = a, t_beta = b, t_data = h,
                        t_phase = Validation, t_ldamodel = Some m\<rparr>]
           | Some e \<Rightarrow> [])) (zip pool combs))"
  unfolding validation_submit_futures validation_batches_def map_map
  by (intro arg_cong[where f = "\<lambda>l. validation_futures s @ concat l"] map_cong refl)
     (auto split: option.splits)


theorem validation_key_by_position_witness:
  "validation_futures
     (validation_submit echo_substrate 1
        (validation_batches [Handle 1]
           [(5, Sym ''symmetric'', Sym ''symmetric'', Train),
            (10, Sym ''symmetric'', Sym ''symmetric'', Validation)])
        after_first_iteration) =
   [\<lparr>t_n_topics = 5, t_alpha = Sym ''symmetric'', t_beta = Sym ''symmetric'',
     t_data = Handle 1, t_phase = Validation, t_ldamodel = Some (LdaModel 5)\<rparr>]"
  using validation_key_by_position[where sub = echo_substrate and i = 1
      and pool = "[Handle 1]" and s = after_first_iteration
      and combs = "[(5, Sym ''symmetric'', Sym ''symmetric'', Train),
                    (10, Sym ''symmetric'', Sym ''symmetric'', Validation)]"]
  by (simp add: after_first_iteration_def echo_substrate_def)

text \<open>
  Claim C1, as stated, fails in the second iteration of the small run: the current
  combination has the topic count 10, and the validation task submitted in that
  iteration carries the key of the first sampled combination, with topic count 5.
\<close>

theorem validation_key_counterexample:
  "random_combinations two_combinations =
     [(5, Sym ''symmetric'', Sym ''symmetric'', Train),
      (10, Sym ''symmetric'', Sym ''symmetric'', Validation)] \<and>
   iteration echo_substrate two_combinations 0
     (5, Sym ''symmetric'', Sym ''symmetric'', Train) init_state =
     Inr (Continue, after_first_iteration) \<and>
   phase_group echo_substrate two_combinations 1
     (10, Sym ''symmetric'', Sym ''symmetric'', Validation) after_first_iteration =
     Inr ([\<lparr>res_topics = 10, res_alpha_str = Scalar (Sym ''symmetric''),
             res_beta_str = Scalar (Sym ''symmetric''), res_lda_model = LdaModel 10\<rparr>],
          in_second_iteration) \<and>
   map t_n_topics (validation_futures in_second_iteration) = [5]"
proof -
  have "random_combinations two_combinations =
     [(5, Sym ''symmetric'', Sym ''symmetric'', Train),
      (10, Sym ''symmetric'', Sym ''symmetric'', Validation)]"
    by (simp add: two_combinations_def)
  moreover have "map t_n_topics (validation_futures in_second_iteration) = [5]"
    by (simp add: in_second_iteration_def)
  ultimately show ?thesis
    using small_run_first_iteration small_run_second_iteration by blast
qed

subsection \<open>Reuse of the model index\<close>

text \<open>
  Claim C3, as stated, fails in the small run: after the first iteration has
  cleared its lists the model index still holds the model of the first
  combination, and the validation task of the second iteration, whose training
  wave returned a model for the topic count 10 only, carries that earlier model.
\<close>

theorem model_index_reuse_counterexample:
  "iteration echo_substrate two_combinations 0
     (5, Sym ''symmetric'', Sym ''symmetric'', Train) init_state =
     Inr (Continue, after_first_iteration) \<and>
   train_futures after_first_iteration = [] \<and>
   validation_futures after_first_iteration = [] \<and>
   test_futures after_first_iteration = [] \<and>
   train_models_dict after_first_iteration (5, Sym ''symmetric'', Sym ''symmetric'') =
     Some (LdaModel 5) \<and>
   phase_group echo_substrate two_combinations 1
     (10, Sym ''symmetric'', Sym ''symmetric'', Validation) after_first_iteration =
     Inr ([\<lparr>res_topics = 10, res_alpha_str = Scalar (Sym ''symmetric''),
             res_beta_str = Scalar (Sym ''symmetric''), res_lda_model = LdaModel 10\<rparr>],
          in_second_iteration) \<and>
   map t_ldamodel (validation_futures in_second_iteration) = [Some (LdaModel 5)]"
proof -
  have "train_futures after_first_iteration = [] \<and>
   validation_futures after_first_iteration = [] \<and>
   test_futures after_first_iteration = [] \<and>
   train_models_dict after_first_iteration (5, Sym ''symmetric'', Sym ''symmetric'') =
     Some (LdaModel 5)"
    by (simp add: after_first_iteration_def)
  moreover have "map t_ldamodel (validation_futures in_second_iteration) =
      [Some (LdaModel 5)]"
    by (simp add: in_second_iteration_def)
  ultimately show ?thesis
    using small_run_first_iteration small_run_second_iteration by blast
qed

text \<open>
  Claim C3, amended: the end of an iteration clears the three lists of pending
  tasks and leaves the model index as it is; the index is created once before
  the sweep and no iteration removes a key from it, so every key filed by the
  training wave of one iteration can be looked up in all later iterations.
\<close>

theorem model_index_is_kept:
  "train_futures (recycle s) = [] \<and> validation_futures (recycle s) = [] \<and>
   test_futures (recycle s) = [] \<and>
   train_models_dict (recycle s) = train_models_dict s \<and>
   (iteration sub inp i comb s = Inr (sg, s') \<longrightarrow>
      dom (train_models_dict s) \<subseteq> dom (train_models_dict s')) \<and>
   (sweep_loop sub inp i rest s = Inr s'' \<longrightarrow>
      dom (train_models_dict s) \<subseteq> dom (train_models_dict s''))"
  using iteration_dom[of sub inp i comb s sg s'] sweep_loop_dom[of sub inp i rest s s'']
  by (simp add: recycle_def)

theorem model_index_is_kept_witness:
  "iteration echo_substrate two_combinations 0
     (5, Sym ''symmetric'', Sym ''symmetric'', Train) init_state =
     Inr (Continue, after_first_iteration) \<and>
   dom (train_models_dict init_state) \<subseteq> dom (train_models_dict after_first_iteration) \<and>
   sweep_loop echo_substrate two_combinations 1
     [(10, Sym ''symmetric'', Sym ''symmetric'', Validation)] after_first_iteration =
     Inr (recycle (logging INFO FinishedWrite in_second_iteration)) \<and>
   (5, Sym ''symmetric'', Sym ''symmetric'') \<in>
     dom (train_models_dict (recycle (logging INFO FinishedWrite in_second_iteration)))"
proof -
  let ?S = "Sym ''symmetric''"
  have run: "sweep_loop echo_substrate two_combinations 1
     [(10, ?S, ?S, Validation)] after_first_iteration =
     Inr (recycle (logging INFO FinishedWrite in_second_iteration))"
  proof -
    have "iteration echo_substrate two_combinations 1 (10, ?S, ?S, Validation)
            after_first_iteration =
          Inr (Continue, recycle (logging INFO FinishedWrite in_second_iteration))"
      unfolding iteration_def small_run_second_iteration
      by (simp add: echo_substrate_def)
    then have "iteration echo_substrate two_combinations (Suc 0) (10, ?S, ?S, Validation)
            after_first_iteration =
          Inr (Continue, recycle (logging INFO FinishedWrite in_second_iteration))"
      by simp
    then show ?thesis by simp
  qed
  have k: "(5, ?S, ?S) \<in> dom (train_models_dict after_first_iteration)"
    by (simp add: after_first_iteration_def)
  from model_index_is_kept[where sub = echo_substrate and inp = two_combinations
      and i = 0 and comb = "(5, ?S, ?S, Train)" and s = init_state and sg = Continue
      and s' = after_first_iteration] small_run_first_iteration
  have a: "dom (train_models_dict init_state) \<subseteq> dom (train_models_dict after_first_iteration)"
    by blast
  from model_index_is_kept[where sub = echo_substrate and inp = two_combinations
      and i = 1 and rest = "[(10, ?S, ?S, Validation)]" and s = after_first_iteration
      and s'' = "recycle (logging INFO FinishedWrite in_second_iteration)"] run k
  have b: "(5, ?S, ?S) \<in>
     dom (train_models_dict (recycle (logging INFO FinishedWrite in_second_iteration)))"
    by blast
  from small_run_first_iteration a run b show ?thesis by blast
qed

end
